theory Spec2Isabelle
  imports Complex_Main "HOL-Library.AList"
begin

section \<open>Data model\<close>

text \<open>
  The program is \<^verbatim>\<open>Hotel_Management_System.py\<close>. Its classes become records.

  \<^item> A \<^verbatim>\<open>datetime.date\<close> is modelled by its proleptic Gregorian ordinal
    (\<^verbatim>\<open>date.toordinal()\<close>): the library compares dates as it compares their ordinals, and
    \<^verbatim>\<open>(b - a).days\<close> is the difference of the ordinals.
  \<^item> A price (\<^verbatim>\<open>float\<close> in the annotations) is an exact real number; rounding of
    floating-point arithmetic is not modelled.
  \<^item> A \<^verbatim>\<open>dict\<close> is an association list in insertion order. \<^verbatim>\<open>d[k] = v\<close> is
    \<^const>\<open>AList.update\<close> (a present key keeps its position, a new one is appended),
    \<^verbatim>\<open>k in d\<close> and \<^verbatim>\<open>d[k]\<close> are \<^const>\<open>map_of\<close>, \<^verbatim>\<open>d.values()\<close> is \<open>map snd\<close>,
    and an attribute assignment to the object stored under \<open>k\<close> is \<^const>\<open>AList.map_entry\<close>.
  \<^item> A \<^verbatim>\<open>Reservation\<close> holds references to a \<^verbatim>\<open>Guest\<close> and a \<^verbatim>\<open>Room\<close> object that
    it shares with the registries of the hotel. The registries are the object store: a
    reference is the key under which the object is registered, and reading or writing
    through the reference reads or writes the registry entry. Every reference the program
    creates (lines 83, 97, 221, 222) is taken from the registry, and no entry is ever
    removed or replaced afterwards.
\<close>

type_synonym date = int

record Room =
  room_number :: string
  room_type :: string
  price_per_night :: real
  is_occupied :: bool

record Guest =
  guest_id :: string
  name :: string
  email :: string
  phone :: string

record Reservation =
  reservation_id :: string
  guest :: string
  room :: string
  check_in_date :: date
  check_out_date :: date
  is_checked_in :: bool
  is_checked_out :: bool
  services_used :: "(string \<times> real) list"
  total_charges :: real

record Hotel =
  hotel_name :: string
  rooms :: "(string \<times> Room) list"
  guests :: "(string \<times> Guest) list"
  reservations :: "(string \<times> Reservation) list"
  next_reservation_id :: int

text \<open>
  Every \<^verbatim>\<open>raise\<close> of the program is a \<^verbatim>\<open>ValueError\<close> with its own message; the model keeps
  one constructor for each message, with the identifier the message quotes. A missing
  dictionary key in \<^verbatim>\<open>load_from_file\<close> is Python's \<^verbatim>\<open>KeyError\<close>, and a text that
  \<^verbatim>\<open>date.fromisoformat\<close> rejects is the library's \<^verbatim>\<open>ValueError\<close>.
\<close>

datatype error =
    RoomAlreadyExists string
  | GuestAlreadyExists string
  | GuestNotFound string
  | RoomNotFound string
  | RoomAlreadyOccupied string
  | RoomNotAvailable string
  | ReservationNotFound string
  | AlreadyCheckedIn string
  | NotCheckedIn string
  | AlreadyCheckedOut string
  | KeyError string
  | InvalidIsoFormat string

datatype error_kind = DuplicateKey | NotFound | Conflict | InvalidState | InvalidInput

text \<open>The error kinds of the specification (section 7), by raise site.\<close>

fun kind :: "error \<Rightarrow> error_kind" where
  "kind (RoomAlreadyExists _) = DuplicateKey"
| "kind (GuestAlreadyExists _) = DuplicateKey"
| "kind (GuestNotFound _) = NotFound"
| "kind (RoomNotFound _) = NotFound"
| "kind (RoomAlreadyOccupied _) = Conflict"
| "kind (RoomNotAvailable _) = Conflict"
| "kind (ReservationNotFound _) = NotFound"
| "kind (AlreadyCheckedIn _) = InvalidState"
| "kind (NotCheckedIn _) = InvalidState"
| "kind (AlreadyCheckedOut _) = InvalidState"
| "kind (KeyError _) = NotFound"
| "kind (InvalidIsoFormat _) = InvalidInput"

text \<open>
  An operation returns its outcome together with the hotel as it is when the operation
  returns or raises, so that a mutation made before a \<^verbatim>\<open>raise\<close> would be visible.
\<close>

type_synonym 'a outcome = "(error + 'a) \<times> Hotel"

subsection \<open>Dereferencing\<close>

text \<open>
  Reading an object through a reference. An attribute access of the program cannot fail;
  in the model the key of a reference is registered in every hotel that satisfies
  \<open>hotel_inv\<close> below, which every reachable hotel does (\<open>reachable_hotel_inv\<close>).
\<close>

definition room_at :: "Hotel \<Rightarrow> string \<Rightarrow> Room" where
  "room_at h k = the (map_of (rooms h) k)"

definition room_of :: "Hotel \<Rightarrow> Reservation \<Rightarrow> Room" where
  "room_of h res = room_at h (room res)"


subsection \<open>Decimal text of an integer, as an f-string prints it\<close>

definition digit_char :: "nat \<Rightarrow> char" where
  "digit_char d = ''0123456789'' ! d"

function str_nat :: "nat \<Rightarrow> string" where
  "str_nat n = (if n < 10 then [digit_char n] else str_nat (n div 10) @ [digit_char (n mod 10)])"
  by pat_completeness auto
termination
  by (relation "measure id") auto

declare str_nat.simps [simp del]

definition str_int :: "int \<Rightarrow> string" where
  "str_int i = (if i < 0 then CHR ''-'' # str_nat (nat (- i)) else str_nat (nat i))"

section \<open>Reservation\<close>

text \<open>\<^verbatim>\<open>Reservation.__init__\<close> (lines 29 to 39); the room is read through its reference.\<close>

definition Reservation_init ::
  "Hotel \<Rightarrow> string \<Rightarrow> string \<Rightarrow> string \<Rightarrow> date \<Rightarrow> date \<Rightarrow> Reservation" where
  "Reservation_init h rid g r ci co =
     \<lparr> reservation_id = rid, guest = g, room = r,
       check_in_date = ci, check_out_date = co,
       is_checked_in = False, is_checked_out = False,
       services_used = [],
       total_charges = price_per_night (room_at h r) * of_int (co - ci) \<rparr>"

text \<open>\<^verbatim>\<open>Reservation.add_service\<close> (lines 41 to 43).\<close>

definition add_service :: "Reservation \<Rightarrow> string \<Rightarrow> real \<Rightarrow> Reservation" where
  "add_service res service_name price =
     (let res1 = res\<lparr>services_used := services_used res @ [(service_name, price)]\<rparr>
      in res1\<lparr>total_charges := total_charges res1 + price\<rparr>)"

text \<open>\<^verbatim>\<open>Reservation.calculate_total_charges\<close> (lines 45 to 49).\<close>

definition calculate_total_charges :: "Hotel \<Rightarrow> Reservation \<Rightarrow> real" where
  "calculate_total_charges h res =
     (let nights = check_out_date res - check_in_date res;
          room_charges = price_per_night (room_of h res) * of_int nights;
          service_charges = sum_list (map snd (services_used res))
      in room_charges + service_charges)"

section \<open>Hotel\<close>

definition Hotel_init :: "string \<Rightarrow> Hotel" where
  "Hotel_init nm =
     \<lparr> hotel_name = nm, rooms = [], guests = [], reservations = [], next_reservation_id = 1 \<rparr>"

definition add_room :: "Hotel \<Rightarrow> Room \<Rightarrow> unit outcome" where
  "add_room h rm =
     (if map_of (rooms h) (room_number rm) \<noteq> None
      then (Inl (RoomAlreadyExists (room_number rm)), h)
      else (Inr (), h\<lparr>rooms := AList.update (room_number rm) rm (rooms h)\<rparr>))"

definition add_guest :: "Hotel \<Rightarrow> Guest \<Rightarrow> unit outcome" where
  "add_guest h g =
     (if map_of (guests h) (guest_id g) \<noteq> None
      then (Inl (GuestAlreadyExists (guest_id g)), h)
      else (Inr (), h\<lparr>guests := AList.update (guest_id g) g (guests h)\<rparr>))"

text \<open>
  The loop of lines 88 to 92 (and the inner loop of lines 138 to 143): True when some
  reservation of the list is on the room numbered \<open>rn\<close> and passes the overlap test.
\<close>

fun has_conflict :: "Hotel \<Rightarrow> string \<Rightarrow> date \<Rightarrow> date \<Rightarrow> Reservation list \<Rightarrow> bool" where
  "has_conflict h rn ci co [] = False"
| "has_conflict h rn ci co (res # rest) =
     (if room_number (room_of h res) = rn
      then (if ci < check_out_date res \<and> co > check_in_date res then True
            else has_conflict h rn ci co rest)
      else has_conflict h rn ci co rest)"

definition make_reservation ::
  "Hotel \<Rightarrow> string \<Rightarrow> string \<Rightarrow> date \<Rightarrow> date \<Rightarrow> Reservation outcome" where
  "make_reservation h gid rn ci co =
     (if map_of (guests h) gid = None then (Inl (GuestNotFound gid), h)
      else case map_of (rooms h) rn of
        None \<Rightarrow> (Inl (RoomNotFound rn), h)
      | Some rm \<Rightarrow>
          if is_occupied rm then (Inl (RoomAlreadyOccupied rn), h)
          else if has_conflict h rn ci co (map snd (reservations h))
          then (Inl (RoomNotAvailable rn), h)
          else
            let rid = ''RES-'' @ str_int (next_reservation_id h);
                h1 = h\<lparr>next_reservation_id := next_reservation_id h + 1\<rparr>;
                res = Reservation_init h1 rid gid rn ci co;
                h2 = h1\<lparr>reservations := AList.update rid res (reservations h1)\<rparr>
            in (Inr res, h2))"

definition check_in :: "Hotel \<Rightarrow> string \<Rightarrow> unit outcome" where
  "check_in h rid =
     (case map_of (reservations h) rid of
        None \<Rightarrow> (Inl (ReservationNotFound rid), h)
      | Some res \<Rightarrow>
          if is_checked_in res then (Inl (AlreadyCheckedIn rid), h)
          else
            let h1 = h\<lparr>reservations :=
                        AList.map_entry rid (\<lambda>r. r\<lparr>is_checked_in := True\<rparr>) (reservations h)\<rparr>;
                h2 = h1\<lparr>rooms :=
                        AList.map_entry (room res) (\<lambda>r. r\<lparr>is_occupied := True\<rparr>) (rooms h1)\<rparr>
            in (Inr (), h2))"

definition check_out :: "Hotel \<Rightarrow> string \<Rightarrow> unit outcome" where
  "check_out h rid =
     (case map_of (reservations h) rid of
        None \<Rightarrow> (Inl (ReservationNotFound rid), h)
      | Some res \<Rightarrow>
          if \<not> is_checked_in res then (Inl (NotCheckedIn rid), h)
          else if is_checked_out res then (Inl (AlreadyCheckedOut rid), h)
          else
            let h1 = h\<lparr>reservations :=
                        AList.map_entry rid (\<lambda>r. r\<lparr>is_checked_out := True\<rparr>) (reservations h)\<rparr>;
                h2 = h1\<lparr>rooms :=
                        AList.map_entry (room res) (\<lambda>r. r\<lparr>is_occupied := False\<rparr>) (rooms h1)\<rparr>;
                h3 = h2\<lparr>reservations :=
                        AList.map_entry rid
                          (\<lambda>r. r\<lparr>total_charges := calculate_total_charges h2 r\<rparr>)
                          (reservations h2)\<rparr>
            in (Inr (), h3))"

text \<open>
  \<^verbatim>\<open>get_available_rooms\<close> (lines 127 to 148): the outer loop over \<^verbatim>\<open>self.rooms.values()\<close>,
  with the flag \<^verbatim>\<open>is_available\<close>.
\<close>

fun available_loop :: "Hotel \<Rightarrow> date \<Rightarrow> date \<Rightarrow> Room list \<Rightarrow> Room list" where
  "available_loop h ci co [] = []"
| "available_loop h ci co (rm # rest) =
     (let is_available =
            (if is_occupied rm then False
             else \<not> has_conflict h (room_number rm) ci co (map snd (reservations h)))
      in if is_available then rm # available_loop h ci co rest
         else available_loop h ci co rest)"

definition get_available_rooms :: "Hotel \<Rightarrow> date \<Rightarrow> date \<Rightarrow> Room list \<times> Hotel" where
  "get_available_rooms h ci co = (available_loop h ci co (map snd (rooms h)), h)"

text \<open>
  Menu entry 8 of \<^verbatim>\<open>main\<close> (lines 341 to 349): \<^verbatim>\<open>add_service\<close> on the reservation
  registered under \<open>rid\<close>; an unknown id prints a message and changes nothing.
\<close>

definition add_service_to :: "Hotel \<Rightarrow> string \<Rightarrow> string \<Rightarrow> real \<Rightarrow> Hotel option" where
  "add_service_to h rid service_name price =
     (if map_of (reservations h) rid = None then None
      else Some (h\<lparr>reservations :=
                    AList.map_entry rid (\<lambda>r. add_service r service_name price)
                      (reservations h)\<rparr>))"

section \<open>Persistence\<close>



record reservation_data =
  sd_reservation_id :: string
  sd_guest_id :: string
  sd_room_number :: string
  sd_check_in_date :: string
  sd_check_out_date :: string
  sd_is_checked_in :: bool
  sd_is_checked_out :: bool
  sd_services_used :: "(string \<times> real) list"
  sd_total_charges :: real








fun load_reservations ::
  "(string \<Rightarrow> date option) \<Rightarrow> Hotel \<Rightarrow> reservation_data list \<Rightarrow> error + Hotel" where
  "load_reservations fromisoformat hotel [] = Inr hotel"
| "load_reservations fromisoformat hotel (res_data # rest) =
     (case map_of (guests hotel) (sd_guest_id res_data) of
        None \<Rightarrow> Inl (KeyError (sd_guest_id res_data))
      | Some g \<Rightarrow>
     (case map_of (rooms hotel) (sd_room_number res_data) of
        None \<Rightarrow> Inl (KeyError (sd_room_number res_data))
      | Some rm \<Rightarrow>
     (case fromisoformat (sd_check_in_date res_data) of
        None \<Rightarrow> Inl (InvalidIsoFormat (sd_check_in_date res_data))
      | Some ci \<Rightarrow>
     (case fromisoformat (sd_check_out_date res_data) of
        None \<Rightarrow> Inl (InvalidIsoFormat (sd_check_out_date res_data))
      | Some co \<Rightarrow>
          let r0 = Reservation_init hotel (sd_reservation_id res_data)
                     (sd_guest_id res_data) (sd_room_number res_data) ci co;
              r1 = r0\<lparr>is_checked_in := sd_is_checked_in res_data\<rparr>;
              r2 = r1\<lparr>is_checked_out := sd_is_checked_out res_data\<rparr>;
              r3 = r2\<lparr>services_used := sd_services_used res_data\<rparr>;
              r4 = r3\<lparr>total_charges := sd_total_charges res_data\<rparr>
          in load_reservations fromisoformat
               (hotel\<lparr>reservations := AList.update (reservation_id r4) r4 (reservations hotel)\<rparr>)
               rest))))"


section \<open>Well-formed and reachable hotels\<close>

text \<open>
  The keys of a Python \<^verbatim>\<open>dict\<close> are distinct, and every statement that stores into a
  registry uses the object's own identifier as the key (lines 69, 74, 99, 207, 217, 237).
  A reference held by a reservation is the key of a registered object.
\<close>

definition dict_ok :: "('v \<Rightarrow> string) \<Rightarrow> (string \<times> 'v) list \<Rightarrow> bool" where
  "dict_ok key d \<longleftrightarrow> distinct (map fst d) \<and> list_all (\<lambda>(k, v). key v = k) d"

definition refs_ok :: "Hotel \<Rightarrow> bool" where
  "refs_ok h \<longleftrightarrow>
     list_all (\<lambda>(k, res). map_of (guests h) (guest res) \<noteq> None \<and>
                           map_of (rooms h) (room res) \<noteq> None) (reservations h)"

definition hotel_inv :: "Hotel \<Rightarrow> bool" where
  "hotel_inv h \<longleftrightarrow>
     dict_ok room_number (rooms h) \<and> dict_ok guest_id (guests h) \<and>
     dict_ok reservation_id (reservations h) \<and> refs_ok h"

definition flags_ok :: "Hotel \<Rightarrow> bool" where
  "flags_ok h \<longleftrightarrow> list_all (\<lambda>(k, res). is_checked_out res \<longrightarrow> is_checked_in res) (reservations h)"

definition no_overlap :: "Hotel \<Rightarrow> bool" where
  "no_overlap h \<longleftrightarrow>
     (\<forall>(k1, r1) \<in> set (reservations h). \<forall>(k2, r2) \<in> set (reservations h).
        k1 \<noteq> k2 \<and> room r1 = room r2 \<longrightarrow>
        \<not> (check_in_date r1 < check_out_date r2 \<and> check_out_date r1 > check_in_date r2))"


definition ids_ok :: "Hotel \<Rightarrow> bool" where
  "ids_ok h \<longleftrightarrow>
     1 \<le> next_reservation_id h \<and>
     map fst (reservations h) =
       map (\<lambda>n. ''RES-'' @ str_int n) [1 .. next_reservation_id h - 1]"


inductive reachable :: "Hotel \<Rightarrow> bool" where
  init: "reachable (Hotel_init nm)"
| add_room: "reachable h \<Longrightarrow> add_room h rm = (Inr (), h') \<Longrightarrow> reachable h'"
| add_guest: "reachable h \<Longrightarrow> add_guest h g = (Inr (), h') \<Longrightarrow> reachable h'"
| make_reservation:
    "reachable h \<Longrightarrow> make_reservation h gid rn ci co = (Inr res, h') \<Longrightarrow> reachable h'"
| check_in: "reachable h \<Longrightarrow> check_in h rid = (Inr (), h') \<Longrightarrow> reachable h'"
| check_out: "reachable h \<Longrightarrow> check_out h rid = (Inr (), h') \<Longrightarrow> reachable h'"
| add_service: "reachable h \<Longrightarrow> add_service_to h rid sn p = Some h' \<Longrightarrow> reachable h'"

text \<open>
  The scenarios of the specification (section 8), as concrete hotels. The dates are
  ordinals: 738886 is 2024-01-01, 738888 is 2024-01-03, 738889 is 2024-01-04, 738890 is
  2024-01-05 and 738891 is 2024-01-06 (the days before year 2024 are
  \<open>2023 * 365 + 505 - 20 + 5 = 738885\<close>). Room 101 costs 100 a night. Reservation A
  (\<open>resA\<close>) is the one of the second scenario, from 2024-01-01 to 2024-01-05; \<open>resB\<close> is
  the adjacent one that follows it; \<open>resS\<close> is the two-night stay of the first scenario.
\<close>

definition room101 :: Room where
  "room101 = \<lparr> room_number = ''101'', room_type = ''Single'', price_per_night = 100,
                is_occupied = False \<rparr>"

definition guest1 :: Guest where
  "guest1 = \<lparr> guest_id = ''G001'', name = ''John Doe'', email = ''john@example.com'',
               phone = ''555-0101'' \<rparr>"

definition hotel1 :: Hotel where
  "hotel1 = snd (add_room (Hotel_init ''Grand Hotel'') room101)"

definition hotel2 :: Hotel where
  "hotel2 = snd (add_guest hotel1 guest1)"

definition resA :: Reservation where
  "resA = \<lparr> reservation_id = ''RES-1'', guest = ''G001'', room = ''101'',
             check_in_date = 738886, check_out_date = 738890,
             is_checked_in = False, is_checked_out = False, services_used = [],
             total_charges = 400 \<rparr>"

definition hotel3 :: Hotel where
  "hotel3 = snd (make_reservation hotel2 ''G001'' ''101'' 738886 738890)"



definition resB :: Reservation where
  "resB = \<lparr> reservation_id = ''RES-2'', guest = ''G001'', room = ''101'',
             check_in_date = 738890, check_out_date = 738891,
             is_checked_in = False, is_checked_out = False, services_used = [],
             total_charges = 100 \<rparr>"

definition hotel6 :: Hotel where
  "hotel6 = snd (make_reservation hotel3 ''G001'' ''101'' 738890 738891)"

definition room102 :: Room where
  "room102 = \<lparr> room_number = ''102'', room_type = ''Double'', price_per_night = 150,
                is_occupied = False \<rparr>"

definition room201 :: Room where
  "room201 = \<lparr> room_number = ''201'', room_type = ''Suite'', price_per_night = 250,
                is_occupied = True \<rparr>"

definition hotel7 :: Hotel where
  "hotel7 = snd (add_room (snd (add_room hotel3 room102)) room201)"




definition resS :: Reservation where
  "resS = \<lparr> reservation_id = ''RES-1'', guest = ''G001'', room = ''101'',
             check_in_date = 738886, check_out_date = 738888,
             is_checked_in = False, is_checked_out = False, services_used = [],
             total_charges = 200 \<rparr>"





definition hotel_b :: Hotel where
  "hotel_b = snd (add_guest (snd (add_room (Hotel_init ''Second Hotel'') room101)) guest1)"





section \<open>Properties of the registries\<close>

lemma dict_ok_map_of:
  "dict_ok key d \<Longrightarrow> map_of d k = Some v \<Longrightarrow> key v = k"
  by (auto simp: dict_ok_def list_all_iff dest: map_of_SomeD)

lemma dict_ok_forall:
  "distinct (map fst d) \<Longrightarrow> list_all (\<lambda>(k, v). P k v) d \<longleftrightarrow> (\<forall>k v. map_of d k = Some v \<longrightarrow> P k v)"
  by (auto simp: list_all_iff)

lemma list_all_update:
  "list_all P al \<Longrightarrow> P (k, v) \<Longrightarrow> list_all P (AList.update k v al)"
  by (induction al) auto

lemma list_all_map_entry:
  "list_all P al \<Longrightarrow> (\<And>v. P (k, v) \<Longrightarrow> P (k, f v)) \<Longrightarrow> list_all P (AList.map_entry k f al)"
  by (induction al) auto

lemma dict_ok_update:
  "dict_ok key d \<Longrightarrow> key v = k \<Longrightarrow> dict_ok key (AList.update k v d)"
  by (simp add: dict_ok_def distinct_update list_all_update)

lemma dict_ok_map_entry:
  "dict_ok key d \<Longrightarrow> (\<And>v. key (f v) = key v) \<Longrightarrow> dict_ok key (AList.map_entry k f d)"
  unfolding dict_ok_def
  by (auto simp: distinct_map_entry intro!: list_all_map_entry)

lemma refs_ok_iff:
  "distinct (map fst (reservations h)) \<Longrightarrow>
   refs_ok h \<longleftrightarrow> (\<forall>k res. map_of (reservations h) k = Some res \<longrightarrow>
      map_of (guests h) (guest res) \<noteq> None \<and> map_of (rooms h) (room res) \<noteq> None)"
  unfolding refs_ok_def by (rule dict_ok_forall)

lemma make_reservation_InrD:
  assumes "make_reservation h gid rn ci co = (Inr res, h')"
  shows "map_of (guests h) gid \<noteq> None"
    and "\<exists>rm. map_of (rooms h) rn = Some rm \<and> \<not> is_occupied rm"
    and "\<not> has_conflict h rn ci co (map snd (reservations h))"
    and "res = Reservation_init h (''RES-'' @ str_int (next_reservation_id h)) gid rn ci co"
    and "h' = h\<lparr>next_reservation_id := next_reservation_id h + 1,
                reservations := AList.update (''RES-'' @ str_int (next_reservation_id h)) res (reservations h)\<rparr>"
  using assms
  by (auto simp: make_reservation_def Let_def Reservation_init_def room_at_def split: if_splits option.splits)

lemma check_in_InrD:
  assumes "check_in h rid = (Inr u, h')"
  shows "\<exists>res. map_of (reservations h) rid = Some res \<and> \<not> is_checked_in res \<and>
           h' = h\<lparr>reservations := AList.map_entry rid (\<lambda>r. r\<lparr>is_checked_in := True\<rparr>) (reservations h),
                  rooms := AList.map_entry (room res) (\<lambda>r. r\<lparr>is_occupied := True\<rparr>) (rooms h)\<rparr>"
  using assms
  by (auto simp: check_in_def Let_def split: if_splits option.splits)

lemma check_out_InrD:
  assumes "check_out h rid = (Inr u, h')"
  shows "\<exists>res. map_of (reservations h) rid = Some res \<and> is_checked_in res \<and> \<not> is_checked_out res \<and>
           h' = h\<lparr>rooms := AList.map_entry (room res) (\<lambda>r. r\<lparr>is_occupied := False\<rparr>) (rooms h),
                  reservations := AList.map_entry rid
                     (\<lambda>r. r\<lparr>total_charges := calculate_total_charges
                          (h\<lparr>rooms := AList.map_entry (room res) (\<lambda>r. r\<lparr>is_occupied := False\<rparr>) (rooms h)\<rparr>) r\<rparr>)
                     (AList.map_entry rid (\<lambda>r. r\<lparr>is_checked_out := True\<rparr>) (reservations h))\<rparr>"
  using assms
  by (auto simp: check_out_def Let_def calculate_total_charges_def room_of_def room_at_def split: if_splits option.splits)


lemma add_room_InrD:
  assumes "add_room h rm = (Inr u, h')"
  shows "map_of (rooms h) (room_number rm) = None"
    and "h' = h\<lparr>rooms := AList.update (room_number rm) rm (rooms h)\<rparr>"
  using assms by (auto simp: add_room_def split: if_splits)

lemma add_guest_InrD:
  assumes "add_guest h g = (Inr u, h')"
  shows "map_of (guests h) (guest_id g) = None"
    and "h' = h\<lparr>guests := AList.update (guest_id g) g (guests h)\<rparr>"
  using assms by (auto simp: add_guest_def split: if_splits)

lemma add_service_to_SomeD:
  assumes "add_service_to h rid sn p = Some h'"
  shows "map_of (reservations h) rid \<noteq> None"
    and "h' = h\<lparr>reservations :=
                 AList.map_entry rid (\<lambda>r. add_service r sn p) (reservations h)\<rparr>"
  using assms by (auto simp: add_service_to_def split: if_splits)

lemma refs_ok_rooms_guests:
  assumes "refs_ok h" and "reservations h' = reservations h"
    and "\<And>k. map_of (guests h) k \<noteq> None \<Longrightarrow> map_of (guests h') k \<noteq> None"
    and "\<And>k. map_of (rooms h) k \<noteq> None \<Longrightarrow> map_of (rooms h') k \<noteq> None"
  shows "refs_ok h'"
  using assms unfolding refs_ok_def list_all_iff by fastforce

lemma refs_ok_map_entry:
  assumes "refs_ok h" and "\<And>r. guest (f r) = guest r" and "\<And>r. room (f r) = room r"
  shows "refs_ok (h\<lparr>reservations := AList.map_entry rid f (reservations h)\<rparr>)"
  using assms unfolding refs_ok_def
  by (auto intro!: list_all_map_entry)

lemma hotel_inv_add_room:
  assumes "hotel_inv h" and "add_room h rm = (Inr u, h')"
  shows "hotel_inv h'"
proof -
  note h' = add_room_InrD(2) [OF assms(2)]
  have "refs_ok h'"
    by (rule refs_ok_rooms_guests [of h]) (use assms(1) in \<open>auto simp: h' hotel_inv_def update_conv'\<close>)
  then show ?thesis
    using assms(1) by (simp add: hotel_inv_def h' dict_ok_update)
qed

lemma hotel_inv_add_guest:
  assumes "hotel_inv h" and "add_guest h g = (Inr u, h')"
  shows "hotel_inv h'"
proof -
  note h' = add_guest_InrD(2) [OF assms(2)]
  have "refs_ok h'"
    by (rule refs_ok_rooms_guests [of h]) (use assms(1) in \<open>auto simp: h' hotel_inv_def update_conv'\<close>)
  then show ?thesis
    using assms(1) by (simp add: hotel_inv_def h' dict_ok_update)
qed

lemma hotel_inv_make_reservation:
  assumes "hotel_inv h" and "make_reservation h gid rn ci co = (Inr res, h')"
  shows "hotel_inv h'"
proof -
  note D = make_reservation_InrD [OF assms(2)]
  from D(2) obtain rm where rm: "map_of (rooms h) rn = Some rm" by blast
  have "refs_ok h'"
    using assms(1) D(1) rm unfolding refs_ok_def hotel_inv_def
    by (auto simp: D(5) D(4) Reservation_init_def intro!: list_all_update)
  moreover have "dict_ok reservation_id (reservations h')"
    using assms(1) by (auto simp: hotel_inv_def D(5) D(4) Reservation_init_def intro!: dict_ok_update)
  ultimately show ?thesis
    using assms(1) by (simp add: hotel_inv_def D(5))
qed

lemma hotel_inv_check_in:
  assumes "hotel_inv h" and "check_in h rid = (Inr u, h')"
  shows "hotel_inv h'"
proof -
  from check_in_InrD [OF assms(2)] obtain res :: Reservation where
    h': "h' = h\<lparr>reservations := AList.map_entry rid (\<lambda>r. r\<lparr>is_checked_in := True\<rparr>) (reservations h),
                 rooms := AList.map_entry (room res) (\<lambda>r. r\<lparr>is_occupied := True\<rparr>) (rooms h)\<rparr>"
    by auto
  let ?h1 = "h\<lparr>reservations := AList.map_entry rid (\<lambda>r. r\<lparr>is_checked_in := True\<rparr>) (reservations h)\<rparr>"
  have "refs_ok ?h1"
    using assms(1) by (intro refs_ok_map_entry) (simp_all add: hotel_inv_def)
  then have "refs_ok h'"
    by (rule refs_ok_rooms_guests) (auto simp: h' map_of_map_entry split: option.splits)
  then show ?thesis
    using assms(1) by (auto simp: hotel_inv_def h' intro!: dict_ok_map_entry)
qed

lemma hotel_inv_check_out:
  assumes "hotel_inv h" and "check_out h rid = (Inr u, h')"
  shows "hotel_inv h'"
proof -
  from check_out_InrD [OF assms(2)] obtain res :: Reservation where
    h0: "h' = h\<lparr>rooms := AList.map_entry (room res) (\<lambda>r. r\<lparr>is_occupied := False\<rparr>) (rooms h),
                  reservations := AList.map_entry rid
                     (\<lambda>r. r\<lparr>total_charges := calculate_total_charges
                          (h\<lparr>rooms := AList.map_entry (room res) (\<lambda>r. r\<lparr>is_occupied := False\<rparr>) (rooms h)\<rparr>) r\<rparr>)
                     (AList.map_entry rid (\<lambda>r. r\<lparr>is_checked_out := True\<rparr>) (reservations h))\<rparr>"
    by auto
  define f where "f = calculate_total_charges
                          (h\<lparr>rooms := AList.map_entry (room res) (\<lambda>r. r\<lparr>is_occupied := False\<rparr>) (rooms h)\<rparr>)"
  have h': "h' = h\<lparr>rooms := AList.map_entry (room res) (\<lambda>r. r\<lparr>is_occupied := False\<rparr>) (rooms h),
                  reservations := AList.map_entry rid (\<lambda>r. r\<lparr>total_charges := f r\<rparr>)
                     (AList.map_entry rid (\<lambda>r. r\<lparr>is_checked_out := True\<rparr>) (reservations h))\<rparr>"
    unfolding f_def by (rule h0)
  let ?h1 = "h\<lparr>reservations := AList.map_entry rid (\<lambda>r. r\<lparr>is_checked_out := True\<rparr>) (reservations h)\<rparr>"
  let ?h2 = "?h1\<lparr>reservations := AList.map_entry rid (\<lambda>r. r\<lparr>total_charges := f r\<rparr>) (reservations ?h1)\<rparr>"
  have "refs_ok ?h1"
    using assms(1) by (intro refs_ok_map_entry) (simp_all add: hotel_inv_def)
  then have "refs_ok ?h2"
    by (rule refs_ok_map_entry) simp_all
  then have "refs_ok h'"
    by (rule refs_ok_rooms_guests) (auto simp: h' map_of_map_entry split: option.splits)
  then show ?thesis
    using assms(1) by (auto simp: hotel_inv_def h' intro!: dict_ok_map_entry)
qed

lemma hotel_inv_add_service:
  assumes "hotel_inv h" and "add_service_to h rid sn p = Some h'"
  shows "hotel_inv h'"
proof -
  note h' = add_service_to_SomeD(2) [OF assms(2)]
  have "refs_ok h'"
    unfolding h' using assms(1)
    by (intro refs_ok_map_entry) (auto simp: hotel_inv_def add_service_def)
  then show ?thesis
    using assms(1) by (auto simp: hotel_inv_def h' add_service_def intro!: dict_ok_map_entry)
qed

lemma hotel_inv_init: "hotel_inv (Hotel_init nm)"
  by (simp add: hotel_inv_def Hotel_init_def dict_ok_def refs_ok_def)

lemma reachable_hotel_inv: "reachable h \<Longrightarrow> hotel_inv h"
proof (induction rule: reachable.induct)
  case (init nm)
  show ?case by (rule hotel_inv_init)
next
  case (add_room h rm h')
  then show ?case by (blast intro: hotel_inv_add_room)
next
  case (add_guest h g h')
  then show ?case by (blast intro: hotel_inv_add_guest)
next
  case (make_reservation h gid rn ci co res h')
  then show ?case by (blast intro: hotel_inv_make_reservation)
next
  case (check_in h rid h')
  then show ?case by (blast intro: hotel_inv_check_in)
next
  case (check_out h rid h')
  then show ?case by (blast intro: hotel_inv_check_out)
next
  case (add_service h rid sn p h')
  then show ?case by (blast intro: hotel_inv_add_service)
qed


lemma list_all_map_entry_set:
  "list_all P al \<Longrightarrow> (\<And>v. (k, v) \<in> set al \<Longrightarrow> P (k, v) \<Longrightarrow> P (k, f v)) \<Longrightarrow>
   list_all P (AList.map_entry k f al)"
  by (induction al) auto

lemma map_of_map_entry_same:
  "map_of (AList.map_entry k f al) k = map_option f (map_of al k)"
  by (simp add: map_of_map_entry split: option.splits)

lemma map_of_map_entry_other:
  "k' \<noteq> k \<Longrightarrow> map_of (AList.map_entry k f al) k' = map_of al k'"
  by (simp add: map_of_map_entry)

lemma hotel_inv_mem:
  "hotel_inv h \<Longrightarrow> (k, v) \<in> set (reservations h) \<longleftrightarrow> map_of (reservations h) k = Some v"
  by (simp add: hotel_inv_def dict_ok_def)

lemma hotel_inv_room_ref:
  assumes "hotel_inv h" and "map_of (reservations h) k = Some res"
  shows "\<exists>rm. map_of (rooms h) (room res) = Some rm \<and> room_number rm = room res"
proof -
  from assms have "map_of (rooms h) (room res) \<noteq> None"
    by (auto simp: hotel_inv_def refs_ok_def list_all_iff dest: map_of_SomeD)
  then obtain rm where "map_of (rooms h) (room res) = Some rm" by blast
  moreover from this assms(1) have "room_number rm = room res"
    by (auto simp: hotel_inv_def dest: dict_ok_map_of)
  ultimately show ?thesis by blast
qed

lemma flags_ok_reachable: "reachable h \<Longrightarrow> flags_ok h"
proof (induction rule: reachable.induct)
  case (init nm)
  show ?case by (simp add: flags_ok_def Hotel_init_def)
next
  case (add_room h rm h')
  then show ?case by (simp add: flags_ok_def add_room_InrD(2) [OF add_room.hyps(2)])
next
  case (add_guest h g h')
  then show ?case by (simp add: flags_ok_def add_guest_InrD(2) [OF add_guest.hyps(2)])
next
  case (make_reservation h gid rn ci co res h')
  note D = make_reservation_InrD [OF make_reservation.hyps(2)]
  from make_reservation.IH show ?case
    unfolding flags_ok_def by (auto simp: D(5) D(4) Reservation_init_def intro!: list_all_update)
next
  case (check_in h rid h')
  from check_in_InrD [OF check_in.hyps(2)] obtain res :: Reservation where
    h': "h' = h\<lparr>reservations := AList.map_entry rid (\<lambda>r. r\<lparr>is_checked_in := True\<rparr>) (reservations h),
                 rooms := AList.map_entry (room res) (\<lambda>r. r\<lparr>is_occupied := True\<rparr>) (rooms h)\<rparr>"
    by auto
  from check_in.IH show ?case
    unfolding flags_ok_def by (auto simp: h' intro!: list_all_map_entry)
next
  case (check_out h rid h')
  from check_out_InrD [OF check_out.hyps(2)] obtain res :: Reservation where
    res: "map_of (reservations h) rid = Some res" "is_checked_in res" and
    h': "h' = h\<lparr>rooms := AList.map_entry (room res) (\<lambda>r. r\<lparr>is_occupied := False\<rparr>) (rooms h),
                  reservations := AList.map_entry rid
                     (\<lambda>r. r\<lparr>total_charges := calculate_total_charges
                          (h\<lparr>rooms := AList.map_entry (room res) (\<lambda>r. r\<lparr>is_occupied := False\<rparr>) (rooms h)\<rparr>) r\<rparr>)
                     (AList.map_entry rid (\<lambda>r. r\<lparr>is_checked_out := True\<rparr>) (reservations h))\<rparr>"
    by auto
  have inv: "hotel_inv h" by (rule reachable_hotel_inv) fact
  have "list_all (\<lambda>(k, res). is_checked_out res \<longrightarrow> is_checked_in res)
          (AList.map_entry rid (\<lambda>r. r\<lparr>is_checked_out := True\<rparr>) (reservations h))"
    using check_out.IH res unfolding flags_ok_def
    by (intro list_all_map_entry_set) (auto simp: hotel_inv_mem [OF inv])
  then show ?case
    unfolding flags_ok_def h' by (auto intro!: list_all_map_entry)
next
  case (add_service h rid sn p h')
  from add_service.IH show ?case
    unfolding flags_ok_def add_service_to_SomeD(2) [OF add_service.hyps(2)]
    by (auto simp: add_service_def intro!: list_all_map_entry)
qed






lemma check_in_success:
  assumes "map_of (reservations h) rid = Some res" and "\<not> is_checked_in res"
    and "map_of (rooms h) (room res) = Some rm"
  shows "\<exists>h'. check_in h rid = (Inr (), h') \<and>
           map_of (reservations h') rid = Some (res\<lparr>is_checked_in := True\<rparr>) \<and>
           (\<forall>k. k \<noteq> rid \<longrightarrow> map_of (reservations h') k = map_of (reservations h) k) \<and>
           map_of (rooms h') (room res) = Some (rm\<lparr>is_occupied := True\<rparr>) \<and>
           (\<forall>k. k \<noteq> room res \<longrightarrow> map_of (rooms h') k = map_of (rooms h) k)"
  using assms
  by (simp add: check_in_def Let_def map_of_map_entry_same map_of_map_entry_other)

lemma check_out_success:
  assumes "map_of (reservations h) rid = Some res" and "is_checked_in res" and "\<not> is_checked_out res"
    and "map_of (rooms h) (room res) = Some rm"
  shows "\<exists>h'. check_out h rid = (Inr (), h') \<and>
           map_of (reservations h') rid =
             Some (res\<lparr>is_checked_out := True,
                       total_charges := price_per_night rm * of_int (check_out_date res - check_in_date res)
                                        + sum_list (map snd (services_used res))\<rparr>) \<and>
           (\<forall>k. k \<noteq> rid \<longrightarrow> map_of (reservations h') k = map_of (reservations h) k) \<and>
           map_of (rooms h') (room res) = Some (rm\<lparr>is_occupied := False\<rparr>) \<and>
           (\<forall>k. k \<noteq> room res \<longrightarrow> map_of (rooms h') k = map_of (rooms h) k)"
  using assms
  by (simp add: check_out_def Let_def map_of_map_entry_same map_of_map_entry_other
      calculate_total_charges_def room_of_def room_at_def)

section \<open>The scenarios\<close>

lemma hotel1_eq:
  "hotel1 = \<lparr> hotel_name = ''Grand Hotel'', rooms = [(''101'', room101)], guests = [],
              reservations = [], next_reservation_id = 1 \<rparr>"
  by (simp add: hotel1_def add_room_def Hotel_init_def room101_def)

lemma hotel2_eq:
  "hotel2 = \<lparr> hotel_name = ''Grand Hotel'', rooms = [(''101'', room101)],
              guests = [(''G001'', guest1)], reservations = [], next_reservation_id = 1 \<rparr>"
  by (simp add: hotel2_def hotel1_eq add_guest_def guest1_def)

lemma str_int_small:
  "str_int 1 = ''1''" "str_int 2 = ''2''" "str_int 3 = ''3''"
  by (simp_all add: str_int_def str_nat.simps digit_char_def)

lemma make_reservation_hotel2:
  "make_reservation hotel2 ''G001'' ''101'' 738886 738890 =
     (Inr resA, hotel2\<lparr>reservations := [(''RES-1'', resA)], next_reservation_id := 2\<rparr>)"
  by (simp add: make_reservation_def hotel2_eq Let_def str_int_small Reservation_init_def
      room_at_def room101_def resA_def)

lemma hotel3_eq:
  "hotel3 = \<lparr> hotel_name = ''Grand Hotel'', rooms = [(''101'', room101)],
              guests = [(''G001'', guest1)], reservations = [(''RES-1'', resA)],
              next_reservation_id = 2 \<rparr>"
  by (simp add: hotel3_def make_reservation_hotel2) (simp add: hotel2_eq)





lemma reachable_hotel2: "reachable hotel2"
proof -
  have "reachable (Hotel_init ''Grand Hotel'')" by (rule reachable.init)
  moreover have "add_room (Hotel_init ''Grand Hotel'') room101 = (Inr (), hotel1)"
    by (simp add: hotel1_def add_room_def Hotel_init_def)
  ultimately have "reachable hotel1" by (rule reachable.add_room)
  moreover have "add_guest hotel1 guest1 = (Inr (), hotel2)"
    by (simp add: hotel2_def add_guest_def hotel1_eq)
  ultimately show ?thesis by (rule reachable.add_guest)
qed

lemma reachable_hotel3: "reachable hotel3"
proof -
  have "make_reservation hotel2 ''G001'' ''101'' 738886 738890 = (Inr resA, hotel3)"
    by (simp add: hotel3_def make_reservation_hotel2)
  with reachable_hotel2 show ?thesis by (rule reachable.make_reservation)
qed



lemma make_reservation_hotel3:
  "make_reservation hotel3 ''G001'' ''101'' 738890 738891 =
     (Inr resB, hotel3\<lparr>reservations := [(''RES-1'', resA), (''RES-2'', resB)],
                      next_reservation_id := 3\<rparr>)"
  by (simp add: make_reservation_def hotel3_eq Let_def str_int_small Reservation_init_def
      room_at_def room_of_def room101_def resA_def resB_def)

lemma hotel6_eq:
  "hotel6 = \<lparr> hotel_name = ''Grand Hotel'', rooms = [(''101'', room101)],
              guests = [(''G001'', guest1)],
              reservations = [(''RES-1'', resA), (''RES-2'', resB)],
              next_reservation_id = 3 \<rparr>"
  by (simp add: hotel6_def make_reservation_hotel3) (simp add: hotel3_eq)

lemma reachable_hotel6: "reachable hotel6"
proof -
  have "make_reservation hotel3 ''G001'' ''101'' 738890 738891 = (Inr resB, hotel6)"
    by (simp add: hotel6_def make_reservation_hotel3)
  with reachable_hotel3 show ?thesis by (rule reachable.make_reservation)
qed

lemma hotel7_eq:
  "hotel7 = \<lparr> hotel_name = ''Grand Hotel'',
              rooms = [(''101'', room101), (''102'', room102), (''201'', room201)],
              guests = [(''G001'', guest1)], reservations = [(''RES-1'', resA)],
              next_reservation_id = 2 \<rparr>"
  by (simp add: hotel7_def add_room_def hotel3_eq room102_def room201_def)















lemma hotel_b_eq:
  "hotel_b = \<lparr> hotel_name = ''Second Hotel'', rooms = [(''101'', room101)],
              guests = [(''G001'', guest1)], reservations = [], next_reservation_id = 1 \<rparr>"
  by (simp add: hotel_b_def add_room_def add_guest_def Hotel_init_def room101_def guest1_def)

lemma reachable_hotel_b: "reachable hotel_b"
proof -
  let ?h1 = "snd (add_room (Hotel_init ''Second Hotel'') room101)"
  have "reachable (Hotel_init ''Second Hotel'')" by (rule reachable.init)
  moreover have "add_room (Hotel_init ''Second Hotel'') room101 = (Inr (), ?h1)"
    by (simp add: add_room_def Hotel_init_def)
  ultimately have "reachable ?h1" by (rule reachable.add_room)
  moreover have "add_guest ?h1 guest1 = (Inr (), hotel_b)"
    by (simp add: hotel_b_def add_guest_def add_room_def Hotel_init_def)
  ultimately show ?thesis by (rule reachable.add_guest)
qed

section \<open>Failed operations\<close>

text \<open>
  C5. An operation among \<^verbatim>\<open>add_room\<close>, \<^verbatim>\<open>add_guest\<close>, \<^verbatim>\<open>make_reservation\<close>, \<^verbatim>\<open>check_in\<close>
  and \<^verbatim>\<open>check_out\<close> that raises leaves the hotel as it was: the rooms, the guests, the
  reservations and the counter \<^verbatim>\<open>next_reservation_id\<close>. In particular a
  \<^verbatim>\<open>make_reservation\<close> that raises does not consume a reservation id.
\<close>

theorem failed_operation_changes_nothing:
  "(fst (add_room h rm) = Inl e1 \<longrightarrow> snd (add_room h rm) = h) \<and>
   (fst (add_guest h g) = Inl e2 \<longrightarrow> snd (add_guest h g) = h) \<and>
   (fst (make_reservation h gid rn ci co) = Inl e3 \<longrightarrow>
      snd (make_reservation h gid rn ci co) = h \<and>
      next_reservation_id (snd (make_reservation h gid rn ci co)) = next_reservation_id h) \<and>
   (fst (check_in h rid) = Inl e4 \<longrightarrow> snd (check_in h rid) = h) \<and>
   (fst (check_out h rid') = Inl e5 \<longrightarrow> snd (check_out h rid') = h)"
  by (simp add: add_room_def add_guest_def make_reservation_def check_in_def check_out_def Let_def
      split: option.splits)

theorem failed_operation_changes_nothing_witness:
  "fst (add_room hotel2 room101) = Inl (RoomAlreadyExists ''101'') \<and>
   snd (add_room hotel2 room101) = hotel2 \<and>
   fst (add_guest hotel2 guest1) = Inl (GuestAlreadyExists ''G001'') \<and>
   snd (add_guest hotel2 guest1) = hotel2 \<and>
   fst (make_reservation hotel2 ''G009'' ''101'' 738886 738888) = Inl (GuestNotFound ''G009'') \<and>
   snd (make_reservation hotel2 ''G009'' ''101'' 738886 738888) = hotel2 \<and>
   next_reservation_id (snd (make_reservation hotel2 ''G009'' ''101'' 738886 738888)) = 1 \<and>
   fst (check_in hotel2 ''RES-1'') = Inl (ReservationNotFound ''RES-1'') \<and>
   snd (check_in hotel2 ''RES-1'') = hotel2 \<and>
   fst (check_out hotel2 ''RES-1'') = Inl (ReservationNotFound ''RES-1'') \<and>
   snd (check_out hotel2 ''RES-1'') = hotel2"
proof -
  have a: "fst (add_room hotel2 room101) = Inl (RoomAlreadyExists ''101'')"
    by (simp add: hotel2_eq add_room_def room101_def)
  have b: "fst (add_guest hotel2 guest1) = Inl (GuestAlreadyExists ''G001'')"
    by (simp add: hotel2_eq add_guest_def guest1_def)
  have c: "fst (make_reservation hotel2 ''G009'' ''101'' 738886 738888) = Inl (GuestNotFound ''G009'')"
    by (simp add: hotel2_eq make_reservation_def)
  have d: "fst (check_in hotel2 ''RES-1'') = Inl (ReservationNotFound ''RES-1'')"
    by (simp add: hotel2_eq check_in_def)
  have e: "fst (check_out hotel2 ''RES-1'') = Inl (ReservationNotFound ''RES-1'')"
    by (simp add: hotel2_eq check_out_def)
  have n: "next_reservation_id hotel2 = 1"
    by (simp add: hotel2_eq)
  show ?thesis
    using failed_operation_changes_nothing
      [of hotel2 room101 "RoomAlreadyExists ''101''" guest1 "GuestAlreadyExists ''G001''"
          "''G009''" "''101''" 738886 738888 "GuestNotFound ''G009''"
          "''RES-1''" "ReservationNotFound ''RES-1''" "''RES-1''" "ReservationNotFound ''RES-1''"]
      a b c d e n
    by simp
qed

section \<open>Making a reservation\<close>

lemma has_conflict_iff:
  "has_conflict h rn ci co rs \<longleftrightarrow>
     (\<exists>res \<in> set rs. room_number (room_of h res) = rn \<and>
        ci < check_out_date res \<and> co > check_in_date res)"
  by (induction rs) auto

text \<open>
  C2. \<^verbatim>\<open>make_reservation\<close> raises exactly when the guest id or the room number is unknown
  (kind NotFound), or the room is marked occupied, whatever the dates, or some reservation on
  the room passes the test \<open>ci < check_out_date \<and> co > check_in_date\<close> (kind Conflict).
  With reservation A on room 101 from 2024-01-01 to 2024-01-05 (ordinals 738886 and 738890),
  the request from 2024-01-04 to 2024-01-06 raises, and the adjacent request from 2024-01-05
  to 2024-01-06 succeeds.
\<close>

theorem make_reservation_fails_iff:
  "((\<exists>e. fst (make_reservation h gid rn ci co) = Inl e) \<longleftrightarrow>
      map_of (guests h) gid = None \<or> map_of (rooms h) rn = None \<or> is_occupied (room_at h rn) \<or>
      (\<exists>res \<in> set (map snd (reservations h)). room_number (room_of h res) = rn \<and>
          ci < check_out_date res \<and> co > check_in_date res)) \<and>
   (\<forall>e. fst (make_reservation h gid rn ci co) = Inl e \<longrightarrow>
      kind e = (if map_of (guests h) gid = None \<or> map_of (rooms h) rn = None
                then NotFound else Conflict)) \<and>
   fst (make_reservation hotel3 ''G001'' ''101'' 738889 738891) = Inl (RoomNotAvailable ''101'') \<and>
   (\<exists>res. fst (make_reservation hotel3 ''G001'' ''101'' 738890 738891) = Inr res \<and>
      check_in_date res = 738890 \<and> check_out_date res = 738891)"
proof -
  have 1: "(\<exists>e. fst (make_reservation h gid rn ci co) = Inl e) \<longleftrightarrow>
      map_of (guests h) gid = None \<or> map_of (rooms h) rn = None \<or> is_occupied (room_at h rn) \<or>
      (\<exists>res \<in> set (map snd (reservations h)). room_number (room_of h res) = rn \<and>
          ci < check_out_date res \<and> co > check_in_date res)"
    unfolding has_conflict_iff [symmetric]
    by (simp add: make_reservation_def Let_def room_at_def split: option.splits)
  have 2: "\<forall>e. fst (make_reservation h gid rn ci co) = Inl e \<longrightarrow>
      kind e = (if map_of (guests h) gid = None \<or> map_of (rooms h) rn = None
                then NotFound else Conflict)"
    by (auto simp: make_reservation_def Let_def split: option.splits if_splits)
  have 3: "fst (make_reservation hotel3 ''G001'' ''101'' 738889 738891) = Inl (RoomNotAvailable ''101'')"
    by (simp add: make_reservation_def hotel3_eq room101_def resA_def room_of_def room_at_def)
  have 4: "\<exists>res. fst (make_reservation hotel3 ''G001'' ''101'' 738890 738891) = Inr res \<and>
      check_in_date res = 738890 \<and> check_out_date res = 738891"
    by (simp add: make_reservation_def hotel3_eq room101_def resA_def room_of_def room_at_def
        Let_def Reservation_init_def)
  from 1 2 3 4 show ?thesis by blast
qed

theorem make_reservation_fails_iff_witness:
  "fst (make_reservation hotel3 ''G001'' ''101'' 738889 738891) = Inl (RoomNotAvailable ''101'') \<and>
   kind (RoomNotAvailable ''101'') = Conflict \<and>
   map_of (guests hotel3) ''G001'' \<noteq> None \<and> map_of (rooms hotel3) ''101'' \<noteq> None \<and>
   \<not> is_occupied (room_at hotel3 ''101'') \<and>
   (\<exists>res \<in> set (map snd (reservations hotel3)). room_number (room_of hotel3 res) = ''101'' \<and>
       738889 < check_out_date res \<and> 738891 > check_in_date res)"
proof -
  have g: "map_of (guests hotel3) ''G001'' \<noteq> None" "map_of (rooms hotel3) ''101'' \<noteq> None"
      "\<not> is_occupied (room_at hotel3 ''101'')"
    by (simp_all add: hotel3_eq room_at_def room101_def)
  have f: "fst (make_reservation hotel3 ''G001'' ''101'' 738889 738891) = Inl (RoomNotAvailable ''101'')"
    by (simp add: make_reservation_def hotel3_eq room101_def resA_def room_of_def room_at_def)
  show ?thesis
    using make_reservation_fails_iff [of hotel3 "''G001''" "''101''" 738889 738891] g f
    by auto
qed




section \<open>Check-in and check-out\<close>

lemma flags_ok_lookup:
  "flags_ok h \<Longrightarrow> map_of (reservations h) k = Some res \<Longrightarrow> is_checked_out res \<Longrightarrow> is_checked_in res"
  by (auto simp: flags_ok_def list_all_iff dest: map_of_SomeD)




lemma check_in_ignores_rooms:
  "fst (check_in (h\<lparr>rooms := rs\<rparr>) rid) = fst (check_in h rid)"
  by (simp add: check_in_def Let_def split: option.splits)

lemma both_checked_in:
  assumes r1: "map_of (reservations h) id1 = Some r1" and r2: "map_of (reservations h) id2 = Some r2"
    and ne: "id1 \<noteq> id2" and same: "room r1 = room r2"
    and rm: "map_of (rooms h) (room r1) = Some rm"
    and f1: "\<not> is_checked_in r1" and f2: "\<not> is_checked_in r2"
  shows "\<exists>h1 h2. check_in h id1 = (Inr (), h1) \<and> is_occupied (room_of h1 r2) \<and>
            check_in h1 id2 = (Inr (), h2) \<and>
            map_of (reservations h2) id1 = Some (r1\<lparr>is_checked_in := True\<rparr>) \<and>
            map_of (reservations h2) id2 = Some (r2\<lparr>is_checked_in := True\<rparr>) \<and>
            map_of (rooms h2) (room r1) = Some (rm\<lparr>is_occupied := True\<rparr>)"
proof -
  from check_in_success [OF r1 f1 rm] obtain h1 where
    h1: "check_in h id1 = (Inr (), h1)"
      "map_of (reservations h1) id1 = Some (r1\<lparr>is_checked_in := True\<rparr>)"
      "\<forall>k. k \<noteq> id1 \<longrightarrow> map_of (reservations h1) k = map_of (reservations h) k"
      "map_of (rooms h1) (room r1) = Some (rm\<lparr>is_occupied := True\<rparr>)"
    by blast
  have r2_1: "map_of (reservations h1) id2 = Some r2"
    using h1(3) ne r2 by simp
  have rm_1: "map_of (rooms h1) (room r2) = Some (rm\<lparr>is_occupied := True\<rparr>)"
    using h1(4) same by simp
  from check_in_success [OF r2_1 f2 rm_1] obtain h2 where
    h2: "check_in h1 id2 = (Inr (), h2)"
      "map_of (reservations h2) id2 = Some (r2\<lparr>is_checked_in := True\<rparr>)"
      "\<forall>k. k \<noteq> id2 \<longrightarrow> map_of (reservations h2) k = map_of (reservations h1) k"
      "map_of (rooms h2) (room r2) = Some (rm\<lparr>is_occupied := True, is_occupied := True\<rparr>)"
    by blast
  have "map_of (reservations h2) id1 = Some (r1\<lparr>is_checked_in := True\<rparr>)"
    using h2(3) ne h1(2) by simp
  moreover have "map_of (rooms h2) (room r1) = Some (rm\<lparr>is_occupied := True\<rparr>)"
    using h2(4) same by simp
  moreover have "is_occupied (room_of h1 r2)"
    using rm_1 by (simp add: room_of_def room_at_def)
  ultimately show ?thesis
    using h1(1) h2(1,2) by blast
qed

lemma check_out_frees_shared_room:
  assumes r1: "map_of (reservations h) id1 = Some r1" and r2: "map_of (reservations h) id2 = Some r2"
    and ne: "id1 \<noteq> id2" and same: "room r1 = room r2"
    and rm: "map_of (rooms h) (room r1) = Some rm"
    and s1: "is_checked_in r1" "\<not> is_checked_out r1"
  shows "\<exists>h'. check_out h id1 = (Inr (), h') \<and> \<not> is_occupied (room_of h' r2) \<and>
           map_of (reservations h') id2 = Some r2"
proof -
  from check_out_success [OF r1 s1 rm] obtain h' where
    h': "check_out h id1 = (Inr (), h')"
      "\<forall>k. k \<noteq> id1 \<longrightarrow> map_of (reservations h') k = map_of (reservations h) k"
      "map_of (rooms h') (room r1) = Some (rm\<lparr>is_occupied := False\<rparr>)"
    by blast
  have "map_of (reservations h') id2 = Some r2"
    using h'(2) ne r2 by simp
  moreover have "\<not> is_occupied (room_of h' r2)"
    using h'(3) same by (simp add: room_of_def room_at_def)
  ultimately show ?thesis
    using h'(1) by blast
qed

text \<open>
  C10. \<^verbatim>\<open>check_in\<close> does not read the room: its outcome is the same whatever the room
  registry holds. With two reservations on one room, neither checked in, \<^verbatim>\<open>check_in\<close>
  succeeds on the first and then on the second, although the room is already marked
  occupied; after that a \<^verbatim>\<open>check_out\<close> of either marks the shared room free while the other
  reservation is still checked in and not checked out.
\<close>

theorem check_in_ignores_occupancy:
  assumes "reachable h"
    and "map_of (reservations h) id1 = Some r1" and "map_of (reservations h) id2 = Some r2"
    and "id1 \<noteq> id2" and "room_number (room_of h r1) = room_number (room_of h r2)"
    and "\<not> is_checked_in r1" and "\<not> is_checked_in r2"
  shows "(\<forall>rs rid. fst (check_in (h\<lparr>rooms := rs\<rparr>) rid) = fst (check_in h rid)) \<and>
     (\<exists>h1 h2. check_in h id1 = (Inr (), h1) \<and> is_occupied (room_of h1 r2) \<and>
            check_in h1 id2 = (Inr (), h2) \<and>
        (\<exists>h3 r2'. check_out h2 id1 = (Inr (), h3) \<and> \<not> is_occupied (room_of h3 r2) \<and>
            map_of (reservations h3) id2 = Some r2' \<and> is_checked_in r2' \<and> \<not> is_checked_out r2') \<and>
        (\<exists>h3 r1'. check_out h2 id2 = (Inr (), h3) \<and> \<not> is_occupied (room_of h3 r1) \<and>
            map_of (reservations h3) id1 = Some r1' \<and> is_checked_in r1' \<and> \<not> is_checked_out r1'))"
proof -
  have inv: "hotel_inv h" and flags: "flags_ok h"
    using assms(1) by (auto intro: reachable_hotel_inv flags_ok_reachable)
  from hotel_inv_room_ref [OF inv assms(2)] obtain rm where
    rm: "map_of (rooms h) (room r1) = Some rm" "room_number rm = room r1" by blast
  from hotel_inv_room_ref [OF inv assms(3)] obtain rm2 where
    rm2: "map_of (rooms h) (room r2) = Some rm2" "room_number rm2 = room r2" by blast
  have same: "room r1 = room r2"
    using assms(5) rm rm2 by (simp add: room_of_def room_at_def)
  have out: "\<not> is_checked_out r1" "\<not> is_checked_out r2"
    using flags_ok_lookup [OF flags assms(2)] flags_ok_lookup [OF flags assms(3)] assms(6,7)
    by blast+
  from both_checked_in [OF assms(2,3,4) same rm(1) assms(6,7)] obtain h1 h2 where
    h: "check_in h id1 = (Inr (), h1)" "is_occupied (room_of h1 r2)"
       "check_in h1 id2 = (Inr (), h2)"
       "map_of (reservations h2) id1 = Some (r1\<lparr>is_checked_in := True\<rparr>)"
       "map_of (reservations h2) id2 = Some (r2\<lparr>is_checked_in := True\<rparr>)"
       "map_of (rooms h2) (room r1) = Some (rm\<lparr>is_occupied := True\<rparr>)"
    by blast
  let ?r1 = "r1\<lparr>is_checked_in := True\<rparr>" and ?r2 = "r2\<lparr>is_checked_in := True\<rparr>"
  have "\<exists>h'. check_out h2 id1 = (Inr (), h') \<and> \<not> is_occupied (room_of h' ?r2) \<and>
           map_of (reservations h') id2 = Some ?r2"
    by (rule check_out_frees_shared_room [OF h(4) h(5) assms(4), of "rm\<lparr>is_occupied := True\<rparr>"])
       (use same h(6) out in simp_all)
  then have A: "\<exists>h3 r2'. check_out h2 id1 = (Inr (), h3) \<and> \<not> is_occupied (room_of h3 r2) \<and>
            map_of (reservations h3) id2 = Some r2' \<and> is_checked_in r2' \<and> \<not> is_checked_out r2'"
    using out by (auto simp: room_of_def)
  have "\<exists>h'. check_out h2 id2 = (Inr (), h') \<and> \<not> is_occupied (room_of h' ?r1) \<and>
           map_of (reservations h') id1 = Some ?r1"
    by (rule check_out_frees_shared_room [OF h(5) h(4) assms(4) [symmetric], of "rm\<lparr>is_occupied := True\<rparr>"])
       (use same h(6) out in simp_all)
  then have B: "\<exists>h3 r1'. check_out h2 id2 = (Inr (), h3) \<and> \<not> is_occupied (room_of h3 r1) \<and>
            map_of (reservations h3) id1 = Some r1' \<and> is_checked_in r1' \<and> \<not> is_checked_out r1'"
    using out by (auto simp: room_of_def)
  have C: "\<forall>rs rid. fst (check_in (h\<lparr>rooms := rs\<rparr>) rid) = fst (check_in h rid)"
    by (simp add: check_in_ignores_rooms)
  from A B C h(1,2,3) show ?thesis by blast
qed

theorem check_in_ignores_occupancy_witness:
  "reachable hotel6 \<and>
   map_of (reservations hotel6) ''RES-1'' = Some resA \<and>
   map_of (reservations hotel6) ''RES-2'' = Some resB \<and>
   room_number (room_of hotel6 resA) = room_number (room_of hotel6 resB) \<and>
   \<not> is_checked_in resA \<and> \<not> is_checked_in resB \<and>
   \<not> (check_in_date resB < check_out_date resA \<and> check_out_date resB > check_in_date resA) \<and>
   (\<exists>h1 h2. check_in hotel6 ''RES-1'' = (Inr (), h1) \<and> is_occupied (room_of h1 resB) \<and>
            check_in h1 ''RES-2'' = (Inr (), h2) \<and>
        (\<exists>h3 r2'. check_out h2 ''RES-1'' = (Inr (), h3) \<and> \<not> is_occupied (room_of h3 resB) \<and>
            map_of (reservations h3) ''RES-2'' = Some r2' \<and> is_checked_in r2' \<and> \<not> is_checked_out r2'))"
proof -
  have a: "map_of (reservations hotel6) ''RES-1'' = Some resA"
      "map_of (reservations hotel6) ''RES-2'' = Some resB"
      "room_number (room_of hotel6 resA) = room_number (room_of hotel6 resB)"
      "\<not> is_checked_in resA" "\<not> is_checked_in resB"
      "\<not> (check_in_date resB < check_out_date resA \<and> check_out_date resB > check_in_date resA)"
    by (simp_all add: hotel6_eq resA_def resB_def room_of_def)
  have ne: "''RES-1'' \<noteq> ''RES-2''" by simp
  show ?thesis
    using check_in_ignores_occupancy [OF reachable_hotel6 a(1) a(2) ne a(3) a(4) a(5)]
      a reachable_hotel6
    by blast
qed

section \<open>Available rooms\<close>

lemma available_loop_filter:
  "available_loop h ci co rms =
     filter (\<lambda>rm. \<not> is_occupied rm \<and>
               \<not> (\<exists>res \<in> set (map snd (reservations h)).
                     room_number (room_of h res) = room_number rm \<and>
                     ci < check_out_date res \<and> co > check_in_date res)) rms"
  by (induction rms) (simp_all add: has_conflict_iff)

text \<open>
  C6. \<^verbatim>\<open>get_available_rooms\<close> returns, in the order of the room registry, exactly the rooms
  that are not marked occupied and have no reservation passing the test
  \<open>ci < check_out_date \<and> co > check_in_date\<close>; the hotel is unchanged.
\<close>

theorem get_available_rooms_filter:
  "fst (get_available_rooms h ci co) =
     filter (\<lambda>rm. \<not> is_occupied rm \<and>
               \<not> (\<exists>res \<in> set (map snd (reservations h)).
                     room_number (room_of h res) = room_number rm \<and>
                     ci < check_out_date res \<and> co > check_in_date res))
       (map snd (rooms h)) \<and>
   snd (get_available_rooms h ci co) = h"
  by (simp add: get_available_rooms_def available_loop_filter)

theorem get_available_rooms_filter_witness:
  "fst (get_available_rooms hotel7 738888 738892) = [room102] \<and>
   fst (get_available_rooms hotel7 738890 738892) = [room101, room102] \<and>
   snd (get_available_rooms hotel7 738888 738892) = hotel7"
proof -
  have r: "rooms hotel7 = [(''101'', room101), (''102'', room102), (''201'', room201)]"
       "reservations hotel7 = [(''RES-1'', resA)]"
    by (simp_all add: hotel7_eq)
  have n: "room_number (room_of hotel7 resA) = ''101''"
    by (simp add: room_of_def room_at_def r resA_def room101_def)
  have f: "room_number room101 = ''101''" "room_number room102 = ''102''" "room_number room201 = ''201''"
    "\<not> is_occupied room101" "\<not> is_occupied room102" "is_occupied room201"
    "check_in_date resA = 738886" "check_out_date resA = 738890"
    by (simp_all add: room101_def room102_def room201_def resA_def)
  show ?thesis
    using get_available_rooms_filter [of hotel7 738888 738892]
      get_available_rooms_filter [of hotel7 738890 738892]
    by (simp add: r n f)
qed

section \<open>No double booking\<close>

lemma set_map_entry_D:
  "(k', v') \<in> set (AList.map_entry k f al) \<Longrightarrow>
   \<exists>v. (k', v) \<in> set al \<and> (v' = v \<or> v' = f v)"
  by (induction al) (auto split: if_splits)

lemma set_update_D:
  "distinct (map fst al) \<Longrightarrow> (k', v') \<in> set (AList.update k v al) \<Longrightarrow>
   (k' = k \<and> v' = v) \<or> (k' \<noteq> k \<and> (k', v') \<in> set al)"
  by (induction al) (force split: if_splits)+

lemma no_overlap_map_entry:
  assumes "no_overlap h"
    and "\<And>r. room (f r) = room r" "\<And>r. check_in_date (f r) = check_in_date r"
    and "\<And>r. check_out_date (f r) = check_out_date r"
    and "reservations h' = AList.map_entry rid f (reservations h)"
  shows "no_overlap h'"
  unfolding no_overlap_def
proof (clarify)
  fix k1 r1 k2 r2
  assume m: "(k1, r1) \<in> set (reservations h')" "(k2, r2) \<in> set (reservations h')"
    and ne: "k1 \<noteq> k2" and rm: "room r1 = room r2"
    and ov: "check_in_date r1 < check_out_date r2" "check_out_date r1 > check_in_date r2"
  from m(1) obtain v1 where v1: "(k1, v1) \<in> set (reservations h)" "r1 = v1 \<or> r1 = f v1"
    unfolding assms(5) by (blast dest: set_map_entry_D)
  from m(2) obtain v2 where v2: "(k2, v2) \<in> set (reservations h)" "r2 = v2 \<or> r2 = f v2"
    unfolding assms(5) by (blast dest: set_map_entry_D)
  have "room v1 = room v2" "check_in_date v1 < check_out_date v2" "check_out_date v1 > check_in_date v2"
    using v1(2) v2(2) rm ov assms(2,3,4) by auto
  with assms(1) v1(1) v2(1) ne show False
    unfolding no_overlap_def by blast
qed

lemma no_overlap_reachable: "reachable h \<Longrightarrow> no_overlap h"
proof (induction rule: reachable.induct)
  case (init nm)
  show ?case by (simp add: no_overlap_def Hotel_init_def)
next
  case (add_room h rm h')
  then show ?case by (simp add: no_overlap_def add_room_InrD(2) [OF add_room.hyps(2)])
next
  case (add_guest h g h')
  then show ?case by (simp add: no_overlap_def add_guest_InrD(2) [OF add_guest.hyps(2)])
next
  case (make_reservation h gid rn ci co res h')
  note D = make_reservation_InrD [OF make_reservation.hyps(2)]
  have inv: "hotel_inv h" by (rule reachable_hotel_inv) fact
  then have dist: "distinct (map fst (reservations h))"
    by (simp add: hotel_inv_def dict_ok_def)
  have res: "room res = rn" "check_in_date res = ci" "check_out_date res = co"
    by (simp_all add: D(4) Reservation_init_def)
  have old: "\<not> (ci < check_out_date r \<and> co > check_in_date r)"
    if "(k, r) \<in> set (reservations h)" "room r = rn" for k r
  proof -
    from that(1) inv have "map_of (reservations h) k = Some r"
      by (simp add: hotel_inv_mem)
    from hotel_inv_room_ref [OF inv this] that(2) have "room_number (room_of h r) = rn"
      by (auto simp: room_of_def room_at_def)
    with D(3) that(1) show ?thesis
      unfolding has_conflict_iff by force
  qed
  show ?case
    unfolding no_overlap_def
  proof (clarify)
    fix k1 r1 k2 r2
    assume m: "(k1, r1) \<in> set (reservations h')" "(k2, r2) \<in> set (reservations h')"
      and ne: "k1 \<noteq> k2" and rm: "room r1 = room r2"
      and ov: "check_in_date r1 < check_out_date r2" "check_out_date r1 > check_in_date r2"
    let ?rid = "''RES-'' @ str_int (next_reservation_id h)"
    from m(1) have c1: "(k1 = ?rid \<and> r1 = res) \<or> (k1 \<noteq> ?rid \<and> (k1, r1) \<in> set (reservations h))"
      unfolding D(5) using set_update_D [OF dist] by fastforce
    from m(2) have c2: "(k2 = ?rid \<and> r2 = res) \<or> (k2 \<noteq> ?rid \<and> (k2, r2) \<in> set (reservations h))"
      unfolding D(5) using set_update_D [OF dist] by fastforce
    from c1 c2 ne consider
        (new1) "r1 = res" "(k2, r2) \<in> set (reservations h)"
      | (new2) "r2 = res" "(k1, r1) \<in> set (reservations h)"
      | (old) "(k1, r1) \<in> set (reservations h)" "(k2, r2) \<in> set (reservations h)"
      by blast
    then show False
    proof cases
      case new1
      with old [of k2 r2] rm ov res show False by simp
    next
      case new2
      with old [of k1 r1] rm ov res show False by simp
    next
      case old
      with make_reservation.IH ne rm ov show False
        unfolding no_overlap_def by blast
    qed
  qed
next
  case (check_in h rid h')
  from check_in_InrD [OF check_in.hyps(2)] obtain res :: Reservation where
    h': "h' = h\<lparr>reservations := AList.map_entry rid (\<lambda>r. r\<lparr>is_checked_in := True\<rparr>) (reservations h),
                 rooms := AList.map_entry (room res) (\<lambda>r. r\<lparr>is_occupied := True\<rparr>) (rooms h)\<rparr>"
    by auto
  show ?case
    by (rule no_overlap_map_entry [OF check_in.IH, of "\<lambda>r. r\<lparr>is_checked_in := True\<rparr>" _ rid])
       (simp_all add: h')
next
  case (check_out h rid h')
  from check_out_InrD [OF check_out.hyps(2)] obtain res :: Reservation where
    h': "h' = h\<lparr>rooms := AList.map_entry (room res) (\<lambda>r. r\<lparr>is_occupied := False\<rparr>) (rooms h),
                  reservations := AList.map_entry rid
                     (\<lambda>r. r\<lparr>total_charges := calculate_total_charges
                          (h\<lparr>rooms := AList.map_entry (room res) (\<lambda>r. r\<lparr>is_occupied := False\<rparr>) (rooms h)\<rparr>) r\<rparr>)
                     (AList.map_entry rid (\<lambda>r. r\<lparr>is_checked_out := True\<rparr>) (reservations h))\<rparr>"
    by auto
  let ?h1 = "h\<lparr>reservations := AList.map_entry rid (\<lambda>r. r\<lparr>is_checked_out := True\<rparr>) (reservations h)\<rparr>"
  have "no_overlap ?h1"
    by (rule no_overlap_map_entry [OF check_out.IH, of "\<lambda>r. r\<lparr>is_checked_out := True\<rparr>" _ rid])
       simp_all
  then show ?case
    by (rule no_overlap_map_entry) (simp_all add: h')
next
  case (add_service h rid sn p h')
  show ?case
    by (rule no_overlap_map_entry [OF add_service.IH, of "\<lambda>r. add_service r sn p" _ rid])
       (simp_all add: add_service_to_SomeD(2) [OF add_service.hyps(2)] add_service_def)
qed

text \<open>
  C1. In every hotel reachable from a new \<^verbatim>\<open>Hotel\<close> by successful calls of \<^verbatim>\<open>add_room\<close>,
  \<^verbatim>\<open>add_guest\<close>, \<^verbatim>\<open>make_reservation\<close>, \<^verbatim>\<open>check_in\<close>, \<^verbatim>\<open>check_out\<close> and \<^verbatim>\<open>add_service\<close>,
  two reservations with different ids on the same room do not pass the overlap test, and
  their half-open intervals of days \<open>[check_in_date, check_out_date)\<close> are disjoint.
\<close>

theorem reservations_never_overlap:
  assumes "reachable h"
    and "map_of (reservations h) id1 = Some r1" and "map_of (reservations h) id2 = Some r2"
    and "id1 \<noteq> id2" and "room_number (room_of h r1) = room_number (room_of h r2)"
  shows "\<not> (check_in_date r1 < check_out_date r2 \<and> check_out_date r1 > check_in_date r2) \<and>
         {check_in_date r1 ..< check_out_date r1} \<inter> {check_in_date r2 ..< check_out_date r2} = {}"
proof -
  have inv: "hotel_inv h" using assms(1) by (rule reachable_hotel_inv)
  from hotel_inv_room_ref [OF inv assms(2)] hotel_inv_room_ref [OF inv assms(3)] assms(5)
  have same: "room r1 = room r2"
    by (auto simp: room_of_def room_at_def)
  have "(id1, r1) \<in> set (reservations h)" "(id2, r2) \<in> set (reservations h)"
    using assms(2,3) by (auto dest: map_of_SomeD)
  with no_overlap_reachable [OF assms(1)] assms(4) same
  have "\<not> (check_in_date r1 < check_out_date r2 \<and> check_out_date r1 > check_in_date r2)"
    unfolding no_overlap_def by blast
  then show ?thesis by auto
qed

theorem reservations_never_overlap_witness:
  "reachable hotel6 \<and>
   map_of (reservations hotel6) ''RES-1'' = Some resA \<and>
   map_of (reservations hotel6) ''RES-2'' = Some resB \<and>
   room_number (room_of hotel6 resA) = room_number (room_of hotel6 resB) \<and>
   {check_in_date resA ..< check_out_date resA} \<inter> {check_in_date resB ..< check_out_date resB} = {}"
proof -
  have a: "map_of (reservations hotel6) ''RES-1'' = Some resA"
      "map_of (reservations hotel6) ''RES-2'' = Some resB"
      "room_number (room_of hotel6 resA) = room_number (room_of hotel6 resB)"
    by (simp_all add: hotel6_eq resA_def resB_def room_of_def)
  have ne: "''RES-1'' \<noteq> ''RES-2''" by simp
  show ?thesis
    using reservations_never_overlap [OF reachable_hotel6 a(1) a(2) ne a(3)] a reachable_hotel6
    by blast
qed

section \<open>Charges\<close>










section \<open>Reservation ids\<close>

lemma digit_char_inj:
  assumes "a < 10" "b < 10" "digit_char a = digit_char b"
  shows "a = b"
proof -
  have "distinct ''0123456789''" by simp
  moreover have "length ''0123456789'' = 10" by simp
  ultimately show ?thesis
    using assms unfolding digit_char_def by (metis nth_eq_iff_index_eq)
qed

lemma str_nat_nonempty: "str_nat n \<noteq> []"
  by (subst str_nat.simps) simp

lemma last_str_nat: "last (str_nat n) = digit_char (n mod 10)"
  by (subst str_nat.simps) simp

lemma butlast_str_nat: "butlast (str_nat n) = (if n < 10 then [] else str_nat (n div 10))"
  by (subst str_nat.simps) (simp add: butlast_append)

lemma str_nat_inj: "str_nat n = str_nat m \<Longrightarrow> n = m"
proof (induction n arbitrary: m rule: str_nat.induct)
  case (1 n)
  from "1.prems" have l: "digit_char (n mod 10) = digit_char (m mod 10)"
    by (metis last_str_nat)
  then have md: "n mod 10 = m mod 10"
    by (intro digit_char_inj) simp_all
  from "1.prems" have b: "butlast (str_nat n) = butlast (str_nat m)" by simp
  show ?case
  proof (cases "n < 10")
    case True
    with b have "m < 10"
      using str_nat_nonempty [of "m div 10"] by (auto simp: butlast_str_nat split: if_splits)
    with True md show ?thesis by simp
  next
    case False
    with b have m: "\<not> m < 10"
      using str_nat_nonempty [of "n div 10"] by (auto simp: butlast_str_nat split: if_splits)
    with False b have "str_nat (n div 10) = str_nat (m div 10)"
      by (simp add: butlast_str_nat)
    with "1.IH" False have "n div 10 = m div 10" by blast
    with md show ?thesis by (metis div_mult_mod_eq)
  qed
qed

lemma str_int_inj: "0 \<le> i \<Longrightarrow> 0 \<le> j \<Longrightarrow> str_int i = str_int j \<Longrightarrow> i = j"
  by (auto simp: str_int_def dest: str_nat_inj)

lemma map_fst_map_entry: "map fst (AList.map_entry k f al) = map fst al"
  by (induction al) auto

lemma ids_ok_keys:
  "ids_ok h \<Longrightarrow> reservations h' = AList.map_entry k f (reservations h) \<Longrightarrow>
   next_reservation_id h' = next_reservation_id h \<Longrightarrow> ids_ok h'"
  by (simp add: ids_ok_def map_fst_map_entry)

lemma ids_ok_fresh:
  assumes "ids_ok h"
  shows "''RES-'' @ str_int (next_reservation_id h) \<notin> set (map fst (reservations h))"
proof
  assume "''RES-'' @ str_int (next_reservation_id h) \<in> set (map fst (reservations h))"
  with assms obtain n where n: "1 \<le> n" "n \<le> next_reservation_id h - 1"
      "str_int (next_reservation_id h) = str_int n"
    unfolding ids_ok_def by auto
  from assms have "1 \<le> next_reservation_id h" by (simp add: ids_ok_def)
  with n have "next_reservation_id h = n" by (intro str_int_inj) simp_all
  with n(2) show False by simp
qed

lemma ids_ok_make_reservation:
  assumes "ids_ok h" and "make_reservation h gid rn ci co = (Inr res, h')"
  shows "ids_ok h'"
    and "reservations h' = reservations h @ [(reservation_id res, res)]"
proof -
  note D = make_reservation_InrD [OF assms(2)]
  let ?rid = "''RES-'' @ str_int (next_reservation_id h)"
  have rid: "reservation_id res = ?rid" by (simp add: D(4) Reservation_init_def)
  have fresh: "?rid \<notin> set (map fst (reservations h))" by (rule ids_ok_fresh) fact
  then have "map_of (reservations h) ?rid = None"
    by (simp add: map_of_eq_None_iff)
  have app: "AList.update k v al = al @ [(k, v)]" if "k \<notin> set (map fst al)" for k v
    and al :: "(string \<times> Reservation) list"
    using that by (induction al) auto
  have upd: "AList.update ?rid res (reservations h) = reservations h @ [(?rid, res)]"
    by (rule app [OF fresh])
  have r': "reservations h' = AList.update ?rid res (reservations h)"
    by (subst D(5)) simp
  show "reservations h' = reservations h @ [(reservation_id res, res)]"
    unfolding rid r' by (rule upd)
  have "[1 .. next_reservation_id h + 1 - 1] = [1 .. next_reservation_id h - 1] @ [next_reservation_id h]"
    using assms(1) by (simp add: ids_ok_def upto_rec2)
  moreover have "reservations h' = reservations h @ [(?rid, res)]"
    unfolding r' by (rule upd)
  moreover have "next_reservation_id h' = next_reservation_id h + 1"
    by (subst D(5)) simp
  ultimately show "ids_ok h'"
    using assms(1) by (simp add: ids_ok_def)
qed

lemma ids_ok_reachable: "reachable h \<Longrightarrow> ids_ok h"
proof (induction rule: reachable.induct)
  case (init nm)
  show ?case by (simp add: ids_ok_def Hotel_init_def)
next
  case (add_room h rm h')
  then show ?case by (simp add: ids_ok_def add_room_InrD(2) [OF add_room.hyps(2)])
next
  case (add_guest h g h')
  then show ?case by (simp add: ids_ok_def add_guest_InrD(2) [OF add_guest.hyps(2)])
next
  case (make_reservation h gid rn ci co res h')
  then show ?case by (blast intro: ids_ok_make_reservation(1))
next
  case (check_in h rid h')
  from check_in.IH show ?case
    by (rule ids_ok_keys) (use check_in_InrD [OF check_in.hyps(2)] in auto)
next
  case (check_out h rid h')
  from check_out_InrD [OF check_out.hyps(2)] obtain res :: Reservation where
    h': "h' = h\<lparr>rooms := AList.map_entry (room res) (\<lambda>r. r\<lparr>is_occupied := False\<rparr>) (rooms h),
                  reservations := AList.map_entry rid
                     (\<lambda>r. r\<lparr>total_charges := calculate_total_charges
                          (h\<lparr>rooms := AList.map_entry (room res) (\<lambda>r. r\<lparr>is_occupied := False\<rparr>) (rooms h)\<rparr>) r\<rparr>)
                     (AList.map_entry rid (\<lambda>r. r\<lparr>is_checked_out := True\<rparr>) (reservations h))\<rparr>"
    by auto
  from check_out.IH show ?case
    by (simp add: ids_ok_def h' map_fst_map_entry)
next
  case (add_service h rid sn p h')
  from add_service.IH show ?case
    by (rule ids_ok_keys) (simp_all add: add_service_to_SomeD(2) [OF add_service.hyps(2)])
qed

text \<open>
  C8 (as amended). The counter \<^verbatim>\<open>next_reservation_id\<close> is an attribute of the hotel and is 1
  in a new \<^verbatim>\<open>Hotel\<close>. Every successful \<^verbatim>\<open>make_reservation\<close> gives the reservation the id
  \<^verbatim>\<open>RES-n\<close> for the current value \<open>n\<close> of the counter of its hotel and adds one to that
  counter. In a hotel reachable from a new \<^verbatim>\<open>Hotel\<close> the ids are, in the order of creation,
  \<^verbatim>\<open>RES-1\<close>, \<^verbatim>\<open>RES-2\<close>, up to the counter minus one; they are distinct, and the id of
  the next reservation is not in use.
\<close>

theorem reservation_ids_sequential:
  "next_reservation_id (Hotel_init nm) = 1 \<and>
   (\<forall>gid rn ci co res h'. make_reservation h gid rn ci co = (Inr res, h') \<longrightarrow>
      reservation_id res = ''RES-'' @ str_int (next_reservation_id h) \<and>
      next_reservation_id h' = next_reservation_id h + 1) \<and>
   (reachable h \<longrightarrow>
      1 \<le> next_reservation_id h \<and>
      map fst (reservations h) =
        map (\<lambda>n. ''RES-'' @ str_int n) [1 .. next_reservation_id h - 1] \<and>
      distinct (map fst (reservations h)) \<and>
      (\<forall>rid res. map_of (reservations h) rid = Some res \<longrightarrow> reservation_id res = rid) \<and>
      (\<forall>gid rn ci co res h'. make_reservation h gid rn ci co = (Inr res, h') \<longrightarrow>
         map_of (reservations h) (reservation_id res) = None \<and>
         reservations h' = reservations h @ [(reservation_id res, res)]))"
proof -
  have A: "next_reservation_id (Hotel_init nm) = 1"
    by (simp add: Hotel_init_def)
  have B: "reservation_id res = ''RES-'' @ str_int (next_reservation_id h) \<and>
      next_reservation_id h' = next_reservation_id h + 1"
    if "make_reservation h gid rn ci co = (Inr res, h')" for gid rn ci co res h'
    using make_reservation_InrD(4,5) [OF that] by (simp add: Reservation_init_def)
  have C: "1 \<le> next_reservation_id h \<and>
      map fst (reservations h) =
        map (\<lambda>n. ''RES-'' @ str_int n) [1 .. next_reservation_id h - 1] \<and>
      distinct (map fst (reservations h)) \<and>
      (\<forall>rid res. map_of (reservations h) rid = Some res \<longrightarrow> reservation_id res = rid) \<and>
      (\<forall>gid rn ci co res h'. make_reservation h gid rn ci co = (Inr res, h') \<longrightarrow>
         map_of (reservations h) (reservation_id res) = None \<and>
         reservations h' = reservations h @ [(reservation_id res, res)])"
    if r: "reachable h"
  proof -
    have ids: "ids_ok h" and inv: "hotel_inv h"
      using r by (auto intro: ids_ok_reachable reachable_hotel_inv)
    have "map_of (reservations h) (reservation_id res) = None \<and>
         reservations h' = reservations h @ [(reservation_id res, res)]"
      if m: "make_reservation h gid rn ci co = (Inr res, h')" for gid rn ci co res h'
    proof -
      have "reservation_id res = ''RES-'' @ str_int (next_reservation_id h)"
        using B [OF m] by simp
      with ids_ok_fresh [OF ids] have "map_of (reservations h) (reservation_id res) = None"
        by (simp add: map_of_eq_None_iff)
      with ids_ok_make_reservation(2) [OF ids m] show ?thesis by simp
    qed
    moreover have "reservation_id res = rid" if "map_of (reservations h) rid = Some res" for rid res
      using inv that by (auto simp: hotel_inv_def dest: dict_ok_map_of)
    moreover have "distinct (map fst (reservations h))"
      using inv by (simp add: hotel_inv_def dict_ok_def)
    ultimately show ?thesis
      using ids unfolding ids_ok_def by blast
  qed
  from A B C show ?thesis by blast
qed

theorem reservation_ids_sequential_witness:
  "reachable hotel3 \<and> next_reservation_id hotel3 = 2 \<and>
   make_reservation hotel3 ''G001'' ''101'' 738890 738891 = (Inr resB, hotel6) \<and>
   reservation_id resB = ''RES-2'' \<and> next_reservation_id hotel6 = 3 \<and>
   map_of (reservations hotel3) ''RES-2'' = None \<and>
   reservations hotel6 = reservations hotel3 @ [(''RES-2'', resB)] \<and>
   map fst (reservations hotel3) = [''RES-1'']"
proof -
  have m: "make_reservation hotel3 ''G001'' ''101'' 738890 738891 = (Inr resB, hotel6)"
    by (simp add: hotel6_def make_reservation_hotel3)
  have n: "next_reservation_id hotel3 = 2" by (simp add: hotel3_eq)
  have u: "[1 .. (2::int) - 1] = [1]" by (simp add: upto.simps)
  from reservation_ids_sequential [of "''Grand Hotel''" hotel3] reachable_hotel3 m
  have "reservation_id resB = ''RES-'' @ str_int (next_reservation_id hotel3)"
    "next_reservation_id hotel6 = next_reservation_id hotel3 + 1"
    "map_of (reservations hotel3) (reservation_id resB) = None"
    "reservations hotel6 = reservations hotel3 @ [(reservation_id resB, resB)]"
    "map fst (reservations hotel3) =
        map (\<lambda>n. ''RES-'' @ str_int n) [1 .. next_reservation_id hotel3 - 1]"
    by blast+
  then show ?thesis
    using reachable_hotel3 m n u by (simp add: str_int_small)
qed

text \<open>
  The counter is not shared by the hotels of a process: two hotels each give their first
  reservation the id \<^verbatim>\<open>RES-1\<close>.
\<close>

theorem per_hotel_counter_counterexample:
  "reachable hotel2 \<and> reachable hotel_b \<and>
   fst (make_reservation hotel2 ''G001'' ''101'' 738886 738890) = Inr resA \<and>
   fst (make_reservation hotel_b ''G001'' ''101'' 738886 738888) = Inr resS \<and>
   reservation_id resA = ''RES-1'' \<and> reservation_id resS = ''RES-1'' \<and> resA \<noteq> resS"
proof -
  have "fst (make_reservation hotel_b ''G001'' ''101'' 738886 738888) = Inr resS"
    by (simp add: make_reservation_def hotel_b_eq Let_def str_int_small Reservation_init_def
      room_at_def room101_def resS_def)
  moreover have "reservation_id resA = ''RES-1''" "reservation_id resS = ''RES-1''" "resA \<noteq> resS"
    by (simp_all add: resA_def resS_def)
  ultimately show ?thesis
    using reachable_hotel2 reachable_hotel_b by (simp add: make_reservation_hotel2)
qed

section \<open>Saving and loading\<close>












lemma load_reservations_regs:
  "load_reservations fromisoformat h0 ds = Inr h1 \<Longrightarrow> rooms h1 = rooms h0 \<and> guests h1 = guests h0"
  by (induction ds arbitrary: h0) (auto split: option.splits simp: Let_def)

















end
